theory Spec2Isabelle
  imports Main
begin

section \<open>The batch spec resolution job store\<close>

text \<open>
  A shallow embedding of \<^verbatim>\<open>enterprise/internal/batches/store/batch_spec_resolution_jobs.go\<close>.
  The Go methods work on a Postgres table through query text; here the table is a list of
  rows, a query is the structure the Go code assembles (its predicate list and the format
  string it is poured into), and the database is a function that runs such a statement on
  the table. Go's multiple return values are tuples, a pointer that may be nil is an
  \<open>option\<close>, a slice that may be nil is an \<open>option\<close> of a list, and every method returns the
  store next to its results, so that what a call does to the table is part of its value.
\<close>

subsection \<open>Values\<close>

text \<open>
  A \<^verbatim>\<open>time.Time\<close> is an instant, counted from Go's zero time \<^verbatim>\<open>time.Time{}\<close>;
  \<^verbatim>\<open>IsZero\<close> recognises that instant. Ids are \<^verbatim>\<open>int64\<close>; the code only compares them,
  so they are integers here.
\<close>

type_synonym time = int

definition IsZero :: "time \<Rightarrow> bool" where
  "IsZero t = (t = 0)"

definition zero_time :: time where
  "zero_time = 0"

text \<open>An execution log entry is opaque to this file; it is copied, never inspected.\<close>

datatype ExecutionLogEntry = ExecutionLogEntry string

text \<open>A Go slice: \<open>None\<close> is the nil slice, \<open>Some xs\<close> a non-nil slice with elements \<open>xs\<close>.\<close>

type_synonym 'a slice = "'a list option"

definition len :: "'a slice \<Rightarrow> nat" where
  "len s = (case s of None \<Rightarrow> 0 | Some xs \<Rightarrow> length xs)"

definition append_slice :: "'a slice \<Rightarrow> 'a \<Rightarrow> 'a slice" where
  "append_slice s x = (case s of None \<Rightarrow> Some [x] | Some xs \<Rightarrow> Some (xs @ [x]))"

definition elems :: "'a slice \<Rightarrow> 'a list" where
  "elems s = (case s of None \<Rightarrow> [] | Some xs \<Rightarrow> xs)"

text \<open>
  Modelled from the spec: the declaration of \<^verbatim>\<open>btypes.BatchSpecResolutionJob\<close> is not
  among the sources at hand. The fields are those \<^verbatim>\<open>scanBatchSpecResolutionJob\<close> and
  \<^verbatim>\<open>CreateBatchSpecResolutionJob\<close> read and write, typed after the job of the spec's
  data model: ids and counters are integers, the state and the worker hostname strings,
  the timestamps times, the execution logs a sequence. \<^verbatim>\<open>FailureMessage\<close> is a
  \<^verbatim>\<open>*string\<close>, as the scan assigns it the address of a string.
\<close>

record BatchSpecResolutionJob =
  ID :: int
  BatchSpecID :: int
  AllowUnsupported :: bool
  AllowIgnored :: bool
  State :: string
  FailureMessage :: "string option"
  StartedAt :: time
  FinishedAt :: time
  ProcessAfter :: time
  NumResets :: int
  NumFailures :: int
  ExecutionLogs :: "ExecutionLogEntry slice"
  WorkerHostname :: string
  CreatedAt :: time
  UpdatedAt :: time

text \<open>The value of \<^verbatim>\<open>var c btypes.BatchSpecResolutionJob\<close>: every field at its zero value.\<close>

definition zero_job :: BatchSpecResolutionJob where
  "zero_job = \<lparr>ID = 0, BatchSpecID = 0, AllowUnsupported = False, AllowIgnored = False,
     State = [], FailureMessage = None, StartedAt = zero_time, FinishedAt = zero_time,
     ProcessAfter = zero_time, NumResets = 0, NumFailures = 0, ExecutionLogs = None,
     WorkerHostname = [], CreatedAt = zero_time, UpdatedAt = zero_time\<rparr>"

definition BatchSpecResolutionJobStateQueued :: string where
  "BatchSpecResolutionJobStateQueued = ''queued''"

text \<open>
  Modelled from the spec: the schema of the table \<^verbatim>\<open>batch_spec_resolution_jobs\<close> is not
  among the sources at hand. A row has one field per column of \<^verbatim>\<open>BatchSpecResolutionJobColums\<close>, in that
  order. The columns the spec's data model calls optional, which the scan reads through
  \<^verbatim>\<open>dbutil.NullString\<close>, \<^verbatim>\<open>dbutil.NullTime\<close> and \<^verbatim>\<open>pq.Array\<close>, may be NULL
  (\<open>None\<close>); the others are scanned into plain Go values and hold a value in every row.
\<close>

record row =
  id_col :: int
  batch_spec_id :: int
  allow_unsupported :: bool
  allow_ignored :: bool
  state :: string
  failure_message :: "string option"
  started_at :: "time option"
  finished_at :: "time option"
  process_after :: "time option"
  num_resets :: int
  num_failures :: int
  execution_logs :: "ExecutionLogEntry list option"
  worker_hostname :: string
  created_at :: time
  updated_at :: time

definition batchSpecResolutionJobInsertColumns :: "string list" where
  "batchSpecResolutionJobInsertColumns =
     [''batch_spec_id'', ''allow_unsupported'', ''allow_ignored'', ''state'',
      ''created_at'', ''updated_at'']"

definition BatchSpecResolutionJobColums :: "string list" where
  "BatchSpecResolutionJobColums =
     [''batch_spec_resolution_jobs.id'',
      ''batch_spec_resolution_jobs.batch_spec_id'',
      ''batch_spec_resolution_jobs.allow_unsupported'',
      ''batch_spec_resolution_jobs.allow_ignored'',
      ''batch_spec_resolution_jobs.state'',
      ''batch_spec_resolution_jobs.failure_message'',
      ''batch_spec_resolution_jobs.started_at'',
      ''batch_spec_resolution_jobs.finished_at'',
      ''batch_spec_resolution_jobs.process_after'',
      ''batch_spec_resolution_jobs.num_resets'',
      ''batch_spec_resolution_jobs.num_failures'',
      ''batch_spec_resolution_jobs.execution_logs'',
      ''batch_spec_resolution_jobs.worker_hostname'',
      ''batch_spec_resolution_jobs.created_at'',
      ''batch_spec_resolution_jobs.updated_at'']"

text \<open>
  Errors. \<^verbatim>\<open>ErrNoResults\<close> is the store package's sentinel, declared outside this file;
  the next two are what the database hands back: a statement it cannot parse, and a failure
  of the connection. The last stands for Go's panic on an index outside a slice.
\<close>

datatype error = ErrNoResults | SyntaxError | StoreFailure string | IndexOutOfRange

subsection \<open>Queries\<close>

text \<open>
  A predicate is one \<^verbatim>\<open>sqlf.Sprintf\<close> of the two query builders, with its argument.
  \<open>pred_text\<close> is its SQL text, the argument still a placeholder.
\<close>

datatype pred =
    IdEq int
  | BatchSpecIdEq int
  | StateEq string
  | WorkerHostnameEq string
  | TRUE

fun pred_text :: "pred \<Rightarrow> string" where
  "pred_text (IdEq _) = ''batch_spec_resolution_jobs.id = %s''"
| "pred_text (BatchSpecIdEq _) = ''batch_spec_resolution_jobs.batch_spec_id = %s''"
| "pred_text (StateEq _) = ''batch_spec_resolution_jobs.state = %s''"
| "pred_text (WorkerHostnameEq _) = ''batch_spec_resolution_jobs.worker_hostname = %s''"
| "pred_text TRUE = ''TRUE''"

fun holds :: "pred \<Rightarrow> row \<Rightarrow> bool" where
  "holds (IdEq i) r = (id_col r = i)"
| "holds (BatchSpecIdEq i) r = (batch_spec_id r = i)"
| "holds (StateEq st) r = (state r = st)"
| "holds (WorkerHostnameEq h) r = (worker_hostname r = h)"
| "holds TRUE r = True"

text \<open>\<^verbatim>\<open>sqlf.Join\<close>: the parts with the separator between them; nothing for no parts.\<close>

fun Join :: "string list \<Rightarrow> string \<Rightarrow> string" where
  "Join [] sep = []"
| "Join [p] sep = p"
| "Join (p # q # ps) sep = p @ sep @ Join (q # ps) sep"

definition and_sep :: string where
  "and_sep = [CHR 0x0A] @ '' AND ''"

text \<open>
  The two format strings differ in what follows the WHERE clause:
  \<^verbatim>\<open>LIMIT 1\<close> in \<^verbatim>\<open>getBatchSpecResolutionJobsQueryFmtstr\<close>,
  \<^verbatim>\<open>ORDER BY id ASC\<close> in \<^verbatim>\<open>listBatchSpecResolutionJobsQueryFmtstr\<close>.
\<close>

datatype select_tail = LIMIT_1 | ORDER_BY_id_ASC

text \<open>The values of one \<^verbatim>\<open>inserter.Insert\<close> call, in the order of the insert columns.\<close>

record insert_values =
  v_batch_spec_id :: int
  v_allow_unsupported :: bool
  v_allow_ignored :: bool
  v_state :: string
  v_created_at :: time
  v_updated_at :: time

text \<open>
  A statement sent to the database: the SELECT of the two format strings, with the column
  list and the predicates that fill its two \<^verbatim>\<open>%s\<close>, or the INSERT ... RETURNING that the
  batch inserter sends.
\<close>

datatype statement =
    SELECT "string list" "pred list" select_tail
  | INSERT_RETURNING "string list" "insert_values list" "string list"

fun where_preds :: "statement \<Rightarrow> pred list" where
  "where_preds (SELECT cols ps t) = ps"
| "where_preds (INSERT_RETURNING cols vs ret) = []"

definition where_clause :: "statement \<Rightarrow> string" where
  "where_clause q = Join (map pred_text (where_preds q)) and_sep"

definition getBatchSpecResolutionJobsQueryFmtstr :: "string list \<Rightarrow> pred list \<Rightarrow> statement" where
  "getBatchSpecResolutionJobsQueryFmtstr cols ps = SELECT cols ps LIMIT_1"

definition listBatchSpecResolutionJobsQueryFmtstr :: "string list \<Rightarrow> pred list \<Rightarrow> statement" where
  "listBatchSpecResolutionJobsQueryFmtstr cols ps = SELECT cols ps ORDER_BY_id_ASC"

record GetBatchSpecResolutionJobOpts =
  opt_ID :: int
  opt_BatchSpecID :: int

definition getBatchSpecResolutionJobQuery :: "GetBatchSpecResolutionJobOpts \<Rightarrow> statement" where
  "getBatchSpecResolutionJobQuery opts =
     (let preds = [];
          preds = (if opt_ID opts \<noteq> 0 then preds @ [IdEq (opt_ID opts)] else preds);
          preds = (if opt_BatchSpecID opts \<noteq> 0
                   then preds @ [BatchSpecIdEq (opt_BatchSpecID opts)] else preds)
      in getBatchSpecResolutionJobsQueryFmtstr BatchSpecResolutionJobColums preds)"

record ListBatchSpecResolutionJobsOpts =
  opt_State :: string
  opt_WorkerHostname :: string

definition listBatchSpecResolutionJobsQuery :: "ListBatchSpecResolutionJobsOpts \<Rightarrow> statement" where
  "listBatchSpecResolutionJobsQuery opts =
     (let preds = [];
          preds = (if opt_State opts \<noteq> [] then preds @ [StateEq (opt_State opts)] else preds);
          preds = (if opt_WorkerHostname opts \<noteq> []
                   then preds @ [WorkerHostnameEq (opt_WorkerHostname opts)] else preds);
          preds = (if length preds = 0 then preds @ [TRUE] else preds)
      in listBatchSpecResolutionJobsQueryFmtstr BatchSpecResolutionJobColums preds)"

subsection \<open>The store and the database\<close>

text \<open>
  The state behind a \<^verbatim>\<open>*Store\<close>: the rows of the table, the last id its sequence gave
  out, whether the database is failing (every statement then returns that failure), and
  the clock \<^verbatim>\<open>s.now\<close>, as the readings it gives and the number of readings taken so far.
\<close>

record Store =
  table :: "row list"
  id_seq :: int
  fault :: "string option"
  clock :: "nat \<Rightarrow> time"
  ticks :: nat

definition now :: "Store \<Rightarrow> time \<times> Store" where
  "now s = (clock s (ticks s), s\<lparr>ticks := ticks s + 1\<rparr>)"

text \<open>
  Modelled from the spec: the table's schema, with the defaults of its columns, is not
  among the sources at hand. The row an INSERT of the insert columns creates has the next id of the
  sequence (\<^verbatim>\<open>id\<close> is a "unique, monotonically assigned identifier"), the six given
  values, stored as they are given, and for the other columns what the spec's data model
  says of a new job: \<^verbatim>\<open>failure_message\<close>, \<^verbatim>\<open>started_at\<close>, \<^verbatim>\<open>finished_at\<close> and
  \<^verbatim>\<open>process_after\<close> are optional and absent, the two counters count from nothing, there
  are no logs, and \<^verbatim>\<open>worker_hostname\<close> is "empty when queued".
\<close>

definition new_row :: "int \<Rightarrow> insert_values \<Rightarrow> row" where
  "new_row i v = \<lparr>id_col = i, batch_spec_id = v_batch_spec_id v,
     allow_unsupported = v_allow_unsupported v, allow_ignored = v_allow_ignored v,
     state = v_state v, failure_message = None, started_at = None, finished_at = None,
     process_after = None, num_resets = 0, num_failures = 0, execution_logs = None,
     worker_hostname = [], created_at = v_created_at v, updated_at = v_updated_at v\<rparr>"

fun insert_rows :: "int \<Rightarrow> insert_values list \<Rightarrow> row list" where
  "insert_rows i [] = []"
| "insert_rows i (v # vs) = new_row (i + 1) v # insert_rows (i + 1) vs"

text \<open>
  The database running one statement on the store. A failing database returns its failure
  and changes nothing. A SELECT whose WHERE clause is empty text does not parse. Otherwise a
  SELECT returns the rows on which every predicate holds: the first of them in table order
  for \<^verbatim>\<open>LIMIT 1\<close> (the query gives no order, so which row it is, is the database's choice;
  table order stands for that choice), all of them sorted by id for \<^verbatim>\<open>ORDER BY id ASC\<close>;
  it leaves the store as it is. An INSERT ... RETURNING appends one row per value tuple and
  returns the new rows in that order.
\<close>

fun exec :: "statement \<Rightarrow> Store \<Rightarrow> (error + row list) \<times> Store" where
  "exec (SELECT cols ps t) s =
     (case fault s of
        Some m \<Rightarrow> (Inl (StoreFailure m), s)
      | None \<Rightarrow>
          if Join (map pred_text ps) and_sep = [] then (Inl SyntaxError, s)
          else let matching = filter (\<lambda>r. list_all (\<lambda>p. holds p r) ps) (table s)
               in (case t of
                     LIMIT_1 \<Rightarrow> (Inr (take 1 matching), s)
                   | ORDER_BY_id_ASC \<Rightarrow> (Inr (sort_key id_col matching), s)))"
| "exec (INSERT_RETURNING cols vs ret) s =
     (case fault s of
        Some m \<Rightarrow> (Inl (StoreFailure m), s)
      | None \<Rightarrow>
          let new = insert_rows (id_seq s) vs
          in (Inr new, s\<lparr>table := table s @ new, id_seq := id_seq s + int (length vs)\<rparr>))"

text \<open>
  Modelled from the spec: \<^verbatim>\<open>scanAll\<close> and \<^verbatim>\<open>Store.query\<close> are not among the sources at hand. As their
  callers use them: \<^verbatim>\<open>query\<close> sends the statement and, unless the database returned an
  error ("propagated to the caller of the operation that triggered it"), calls the scan
  function on each returned row in order, stopping at the first error. The scan function
  is a Go closure; \<open>'a\<close> is the state of the variables it captures.
\<close>

fun scanAll :: "row list \<Rightarrow> (row \<Rightarrow> 'a \<Rightarrow> error option \<times> 'a) \<Rightarrow> 'a \<Rightarrow> error option \<times> 'a" where
  "scanAll [] sc a = (None, a)"
| "scanAll (r # rs) sc a =
     (case sc r a of
        (Some e, a') \<Rightarrow> (Some e, a')
      | (None, a') \<Rightarrow> scanAll rs sc a')"

definition query ::
  "Store \<Rightarrow> statement \<Rightarrow> (row \<Rightarrow> 'a \<Rightarrow> error option \<times> 'a) \<Rightarrow> 'a \<Rightarrow> (error option \<times> 'a) \<times> Store" where
  "query s q sc a =
     (case exec q s of
        (Inl e, s') \<Rightarrow> ((Some e, a), s')
      | (Inr rows, s') \<Rightarrow> (scanAll rows sc a, s'))"

subsection \<open>Scanning\<close>

text \<open>
  Modelled from the spec: \<^verbatim>\<open>dbutil.NullString\<close> and \<^verbatim>\<open>dbutil.NullTime\<close> are not among
  the sources at hand. They are the scan destinations of the columns the spec calls optional: a value is
  stored in the Go variable, and for NULL the variable holds Go's zero value, the empty
  string or the zero time. \<^verbatim>\<open>pq.Array\<close>, of the Postgres driver, does the same for the
  array of log entries: NULL gives no entries.
\<close>

definition NullString :: "string option \<Rightarrow> string" where
  "NullString v = (case v of None \<Rightarrow> [] | Some m \<Rightarrow> m)"

definition NullTime :: "time option \<Rightarrow> time" where
  "NullTime v = (case v of None \<Rightarrow> zero_time | Some t \<Rightarrow> t)"

definition pq_Array :: "'a list option \<Rightarrow> 'a list" where
  "pq_Array v = (case v of None \<Rightarrow> [] | Some es \<Rightarrow> es)"

text \<open>
  \<^verbatim>\<open>scanBatchSpecResolutionJob\<close> writes a row into the job \<open>rj\<close> it is given.
  \<^verbatim>\<open>failureMessage\<close> and \<^verbatim>\<open>executionLogs\<close> are fresh locals. \<^verbatim>\<open>FailureMessage\<close> is
  assigned only when the message is not empty, and the log entries are appended to those
  \<open>rj\<close> already has. Rows are typed here, so \<^verbatim>\<open>s.Scan\<close> itself has no failing case.
\<close>

definition scanBatchSpecResolutionJob ::
  "BatchSpecResolutionJob \<Rightarrow> row \<Rightarrow> error option \<times> BatchSpecResolutionJob" where
  "scanBatchSpecResolutionJob rj r =
     (let executionLogs = pq_Array (execution_logs r);
          failureMessage = NullString (failure_message r);
          rj = rj\<lparr>ID := id_col r, BatchSpecID := batch_spec_id r,
                 AllowUnsupported := allow_unsupported r, AllowIgnored := allow_ignored r,
                 State := state r,
                 StartedAt := NullTime (started_at r),
                 FinishedAt := NullTime (finished_at r),
                 ProcessAfter := NullTime (process_after r),
                 NumResets := num_resets r, NumFailures := num_failures r,
                 WorkerHostname := worker_hostname r,
                 CreatedAt := created_at r, UpdatedAt := updated_at r\<rparr>;
          rj = (if failureMessage \<noteq> [] then rj\<lparr>FailureMessage := Some failureMessage\<rparr> else rj);
          rj = foldl (\<lambda>j entry. j\<lparr>ExecutionLogs := append_slice (ExecutionLogs j) entry\<rparr>) rj executionLogs
      in (None, rj))"

text \<open>
  \<^verbatim>\<open>scanBatchSpecResolutionJobs\<close>: with a query error, the nil slice and that error;
  otherwise every row scanned into a job of its own, appended to a slice that starts nil
  (the slice returned is the one the scan has filled: the Go compiler makes the call before
  it reads \<open>jobs\<close>).
  \<^verbatim>\<open>ScanFirstBatchSpecResolutionJob\<close> returns the first of them, if there is one.
\<close>

definition scanBatchSpecResolutionJobs ::
  "row list \<Rightarrow> error option \<Rightarrow> BatchSpecResolutionJob slice \<times> error option" where
  "scanBatchSpecResolutionJobs rows queryErr =
     (case queryErr of
        Some e \<Rightarrow> (None, Some e)
      | None \<Rightarrow>
          (case scanAll rows
                  (\<lambda>sc jobs. case scanBatchSpecResolutionJob zero_job sc of
                                (Some e, j) \<Rightarrow> (Some e, jobs)
                              | (None, j) \<Rightarrow> (None, append_slice jobs j))
                  None of
             (err, jobs) \<Rightarrow> (jobs, err)))"

definition ScanFirstBatchSpecResolutionJob ::
  "row list \<Rightarrow> error option \<Rightarrow> BatchSpecResolutionJob option \<times> bool \<times> error option" where
  "ScanFirstBatchSpecResolutionJob rows err =
     (case scanBatchSpecResolutionJobs rows err of
        (jobs, err) \<Rightarrow>
          if err \<noteq> None \<or> len jobs = 0 then (None, False, err)
          else (Some (hd (elems jobs)), True, None))"

subsection \<open>Get and list\<close>

text \<open>
  \<^verbatim>\<open>GetBatchSpecResolutionJob\<close>: every returned row is scanned into the one job \<open>c\<close>;
  an error of the query is returned with a nil job, a \<open>c\<close> whose id is still 0 gives
  \<^verbatim>\<open>ErrNoResults\<close>, and otherwise \<open>c\<close> is returned with a nil error.
\<close>

definition GetBatchSpecResolutionJob ::
  "Store \<Rightarrow> GetBatchSpecResolutionJobOpts \<Rightarrow>
     (BatchSpecResolutionJob option \<times> error option) \<times> Store" where
  "GetBatchSpecResolutionJob s opts =
     (let q = getBatchSpecResolutionJobQuery opts
      in case query s q (\<lambda>sc c. scanBatchSpecResolutionJob c sc) zero_job of
           ((err, c), s') \<Rightarrow>
             if err \<noteq> None then ((None, err), s')
             else if ID c = 0 then ((None, Some ErrNoResults), s')
             else ((Some c, None), s'))"

text \<open>
  \<^verbatim>\<open>ListBatchSpecResolutionJobs\<close>: \<open>cs\<close> starts as an empty, non-nil slice; every returned
  row is scanned into a fresh job that is appended to it; \<open>cs\<close> and the error of the query
  are returned together.
\<close>

definition ListBatchSpecResolutionJobs ::
  "Store \<Rightarrow> ListBatchSpecResolutionJobsOpts \<Rightarrow>
     (BatchSpecResolutionJob slice \<times> error option) \<times> Store" where
  "ListBatchSpecResolutionJobs s opts =
     (let q = listBatchSpecResolutionJobsQuery opts
      in case query s q
                (\<lambda>sc cs. case scanBatchSpecResolutionJob zero_job sc of
                            (Some e, c) \<Rightarrow> (Some e, cs)
                          | (None, c) \<Rightarrow> (None, append_slice cs c))
                (Some []) of
           ((err, cs), s') \<Rightarrow> ((cs, err), s'))"

subsection \<open>Create\<close>

text \<open>
  What \<^verbatim>\<open>CreateBatchSpecResolutionJob\<close> and its two closures share: the jobs \<open>ws\<close> (the
  callers' jobs, written through their pointers; the model takes them to be distinct
  objects), the counter \<open>i\<close> of the returning scanner, the rows the inserter has buffered,
  and the store.
\<close>

record create_state =
  cs_ws :: "BatchSpecResolutionJob list"
  cs_i :: int
  cs_batch :: "insert_values list"
  cs_store :: Store

text \<open>
  The closure given to \<^verbatim>\<open>batch.WithInserterWithReturn\<close> as the scanner of the returned
  rows: \<^verbatim>\<open>i++\<close>, then the row is scanned into \<^verbatim>\<open>ws[i]\<close>.
\<close>

definition returningScanner :: "row \<Rightarrow> create_state \<Rightarrow> error option \<times> create_state" where
  "returningScanner rows st =
     (let i = cs_i st + 1;
          st = st\<lparr>cs_i := i\<rparr>
      in if 0 \<le> i \<and> nat i < length (cs_ws st)
         then (case scanBatchSpecResolutionJob (cs_ws st ! nat i) rows of
                 (err, rj) \<Rightarrow> (err, st\<lparr>cs_ws := (cs_ws st)[nat i := rj]\<rparr>))
         else (Some IndexOutOfRange, st))"

text \<open>
  Modelled from the spec: package \<^verbatim>\<open>batch\<close> (\<^verbatim>\<open>Inserter\<close>, its \<^verbatim>\<open>Insert\<close> and
  \<^verbatim>\<open>Flush\<close>, and \<^verbatim>\<open>WithInserterWithReturn\<close>) is not among the sources at hand. As the caller uses it:
  \<^verbatim>\<open>Insert\<close> buffers the values of one row and, once the buffer holds
  \<open>maxBatchSize\<close> rows, flushes; \<^verbatim>\<open>Flush\<close> empties the buffer and, if it held rows,
  sends them in one INSERT ... RETURNING and calls the returning scanner on each returned
  row; an error of the database is returned ("propagated to the caller of the operation
  that triggered it"). \<^verbatim>\<open>WithInserterWithReturn\<close> runs the inserter function, flushes
  what is left in any case, and returns the function's error or else the flush's.
  \<open>maxBatchSize\<close>, a constant of that package, is a parameter.
\<close>

definition Flush :: "create_state \<Rightarrow> error option \<times> create_state" where
  "Flush st =
     (let batch = cs_batch st;
          st = st\<lparr>cs_batch := []\<rparr>
      in if length batch \<noteq> 0
         then (case exec (INSERT_RETURNING batchSpecResolutionJobInsertColumns batch
                            BatchSpecResolutionJobColums) (cs_store st) of
                 (Inl e, s') \<Rightarrow> (Some e, st\<lparr>cs_store := s'\<rparr>)
               | (Inr rows, s') \<Rightarrow> scanAll rows returningScanner (st\<lparr>cs_store := s'\<rparr>))
         else (None, st))"

definition Insert :: "nat \<Rightarrow> insert_values \<Rightarrow> create_state \<Rightarrow> error option \<times> create_state" where
  "Insert maxBatchSize values st =
     (let st = st\<lparr>cs_batch := cs_batch st @ [values]\<rparr>
      in if length (cs_batch st) \<ge> maxBatchSize then Flush st else (None, st))"

definition WithInserterWithReturn ::
  "(create_state \<Rightarrow> error option \<times> create_state) \<Rightarrow> create_state \<Rightarrow> error option \<times> create_state" where
  "WithInserterWithReturn f st =
     (case f st of
        (err, st') \<Rightarrow>
          (case Flush st' of
             (flushErr, st'') \<Rightarrow> ((case err of Some e \<Rightarrow> Some e | None \<Rightarrow> flushErr), st'')))"

text \<open>
  The body of the loop \<^verbatim>\<open>for _, wj := range ws\<close> for the job at index \<open>k\<close>: the two
  timestamps are written into the job itself, the state only into the local \<open>state\<close>, and
  the six values go to \<^verbatim>\<open>inserter.Insert\<close>.
\<close>

definition inserter_body :: "nat \<Rightarrow> nat \<Rightarrow> create_state \<Rightarrow> error option \<times> create_state" where
  "inserter_body maxBatchSize k st =
     (let wj = cs_ws st ! k;
          (wj, s) = (if IsZero (CreatedAt wj)
                     then (case now (cs_store st) of (t, s') \<Rightarrow> (wj\<lparr>CreatedAt := t\<rparr>, s'))
                     else (wj, cs_store st));
          wj = (if IsZero (UpdatedAt wj) then wj\<lparr>UpdatedAt := CreatedAt wj\<rparr> else wj);
          state = State wj;
          state = (if state = [] then BatchSpecResolutionJobStateQueued else state);
          st = st\<lparr>cs_ws := (cs_ws st)[k := wj], cs_store := s\<rparr>
      in Insert maxBatchSize
           \<lparr>v_batch_spec_id = BatchSpecID wj, v_allow_unsupported = AllowUnsupported wj,
            v_allow_ignored = AllowIgnored wj, v_state = state,
            v_created_at = CreatedAt wj, v_updated_at = UpdatedAt wj\<rparr> st)"

text \<open>The loop over the indices of \<open>ws\<close>; it returns at the first error of \<^verbatim>\<open>Insert\<close>.\<close>

fun inserter :: "nat \<Rightarrow> nat list \<Rightarrow> create_state \<Rightarrow> error option \<times> create_state" where
  "inserter maxBatchSize [] st = (None, st)"
| "inserter maxBatchSize (k # ks) st =
     (case inserter_body maxBatchSize k st of
        (Some err, st') \<Rightarrow> (Some err, st')
      | (None, st') \<Rightarrow> inserter maxBatchSize ks st')"

text \<open>
  \<^verbatim>\<open>CreateBatchSpecResolutionJob\<close> returns the error; the jobs, which the caller still
  holds, and the store are returned with it.
\<close>

definition CreateBatchSpecResolutionJob ::
  "nat \<Rightarrow> Store \<Rightarrow> BatchSpecResolutionJob list \<Rightarrow>
     (error option \<times> BatchSpecResolutionJob list) \<times> Store" where
  "CreateBatchSpecResolutionJob maxBatchSize s ws =
     (case WithInserterWithReturn (inserter maxBatchSize [0..<length ws])
             \<lparr>cs_ws = ws, cs_i = - 1, cs_batch = [], cs_store = s\<rparr> of
        (err, st) \<Rightarrow> ((err, cs_ws st), cs_store st))"

subsection \<open>Notions used by the properties\<close>

text \<open>The job a row scans to when the job scanned into is fresh.\<close>

definition job_of_row :: "row \<Rightarrow> BatchSpecResolutionJob" where
  "job_of_row r = snd (scanBatchSpecResolutionJob zero_job r)"

text \<open>A row matches the options of a get, of a list: every option that is set agrees.\<close>

definition get_matches :: "GetBatchSpecResolutionJobOpts \<Rightarrow> row \<Rightarrow> bool" where
  "get_matches opts r =
     ((opt_ID opts = 0 \<or> id_col r = opt_ID opts) \<and>
      (opt_BatchSpecID opts = 0 \<or> batch_spec_id r = opt_BatchSpecID opts))"

definition list_matches :: "ListBatchSpecResolutionJobsOpts \<Rightarrow> row \<Rightarrow> bool" where
  "list_matches opts r =
     ((opt_State opts = [] \<or> state r = opt_State opts) \<and>
      (opt_WorkerHostname opts = [] \<or> worker_hostname r = opt_WorkerHostname opts))"

text \<open>
  The table's primary key, filled from a sequence that starts at 1: no two rows share an
  id, and every id is one the sequence has given out.
\<close>

definition wf_store :: "Store \<Rightarrow> bool" where
  "wf_store s =
     (distinct (map id_col (table s)) \<and> 0 \<le> id_seq s \<and>
      list_all (\<lambda>r. 0 < id_col r \<and> id_col r \<le> id_seq s) (table s))"

text \<open>
  For the jobs \<open>ws\<close> given to a create in store \<open>s\<close>: the number of clock readings taken
  before job \<open>k\<close> is reached (one per earlier job whose \<^verbatim>\<open>CreatedAt\<close> is zero), job \<open>k\<close>
  once its two timestamps are filled in, the values inserted for a job, the row the
  database makes of job \<open>j\<close>, and job \<open>j\<close> after that row has been scanned back into it.
\<close>

definition zeros :: "BatchSpecResolutionJob list \<Rightarrow> nat \<Rightarrow> nat" where
  "zeros ws k = length (filter (\<lambda>j. IsZero (CreatedAt j)) (take k ws))"

definition prepared :: "Store \<Rightarrow> BatchSpecResolutionJob list \<Rightarrow> nat \<Rightarrow> BatchSpecResolutionJob" where
  "prepared s ws k =
     (let wj = ws ! k;
          c = (if IsZero (CreatedAt wj) then clock s (ticks s + zeros ws k) else CreatedAt wj);
          u = (if IsZero (UpdatedAt wj) then c else UpdatedAt wj)
      in wj\<lparr>CreatedAt := c, UpdatedAt := u\<rparr>)"

definition values_of :: "BatchSpecResolutionJob \<Rightarrow> insert_values" where
  "values_of wj =
     \<lparr>v_batch_spec_id = BatchSpecID wj, v_allow_unsupported = AllowUnsupported wj,
      v_allow_ignored = AllowIgnored wj,
      v_state = (if State wj = [] then BatchSpecResolutionJobStateQueued else State wj),
      v_created_at = CreatedAt wj, v_updated_at = UpdatedAt wj\<rparr>"

definition created_row :: "Store \<Rightarrow> BatchSpecResolutionJob list \<Rightarrow> nat \<Rightarrow> row" where
  "created_row s ws j = new_row (id_seq s + 1 + int j) (values_of (prepared s ws j))"

definition scanned :: "Store \<Rightarrow> BatchSpecResolutionJob list \<Rightarrow> nat \<Rightarrow> BatchSpecResolutionJob" where
  "scanned s ws j = snd (scanBatchSpecResolutionJob (prepared s ws j) (created_row s ws j))"

text \<open>
  The state of a create after \<open>k\<close> jobs have gone through the loop and the first \<open>m\<close> of
  them have been flushed to the database.
\<close>

definition create_at :: "Store \<Rightarrow> BatchSpecResolutionJob list \<Rightarrow> nat \<Rightarrow> nat \<Rightarrow> create_state" where
  "create_at s ws m k =
     \<lparr>cs_ws = map (\<lambda>j. if j < m then scanned s ws j
                       else if j < k then prepared s ws j else ws ! j) [0..<length ws],
      cs_i = int m - 1,
      cs_batch = map (\<lambda>j. values_of (prepared s ws j)) [m..<k],
      cs_store = s\<lparr>table := table s @ map (created_row s ws) [0..<m],
                   id_seq := id_seq s + int m,
                   ticks := ticks s + zeros ws k\<rparr>\<rparr>"

subsection \<open>Example data\<close>

definition row1 :: row where
  "row1 = \<lparr>id_col = 1, batch_spec_id = 7, allow_unsupported = False, allow_ignored = True,
     state = ''queued'', failure_message = None, started_at = None, finished_at = None,
     process_after = None, num_resets = 0, num_failures = 0, execution_logs = None,
     worker_hostname = [], created_at = 100, updated_at = 100\<rparr>"

definition row2 :: row where
  "row2 = \<lparr>id_col = 2, batch_spec_id = 9, allow_unsupported = False, allow_ignored = False,
     state = ''failed'', failure_message = Some ''boom'', started_at = Some 110,
     finished_at = Some 120, process_after = None, num_resets = 0, num_failures = 1,
     execution_logs = Some [ExecutionLogEntry ''run''], worker_hostname = ''worker-1'',
     created_at = 101, updated_at = 120\<rparr>"

definition store2 :: Store where
  "store2 = \<lparr>table = [row2, row1], id_seq = 2, fault = None,
     clock = (\<lambda>n. 200 + int n), ticks = 0\<rparr>"

definition job_a :: BatchSpecResolutionJob where
  "job_a = zero_job\<lparr>BatchSpecID := 11\<rparr>"

definition job_b :: BatchSpecResolutionJob where
  "job_b = zero_job\<lparr>BatchSpecID := 12, AllowIgnored := True, State := ''completed'',
     CreatedAt := 50\<rparr>"

definition job_c :: BatchSpecResolutionJob where
  "job_c = zero_job\<lparr>BatchSpecID := 13, FailureMessage := Some ''stale'', UpdatedAt := 60\<rparr>"

section \<open>Properties\<close>

subsection \<open>What a scan writes\<close>

lemma foldl_logs:
  "foldl (\<lambda>j entry. j\<lparr>ExecutionLogs := append_slice (ExecutionLogs j) entry\<rparr>) rj es
     = rj\<lparr>ExecutionLogs := foldl append_slice (ExecutionLogs rj) es\<rparr>"
  by (induction es arbitrary: rj) simp_all

lemma scan_fst: "fst (scanBatchSpecResolutionJob rj r) = None"
  by (simp add: scanBatchSpecResolutionJob_def Let_def)

lemma scan_ID: "ID (snd (scanBatchSpecResolutionJob rj r)) = id_col r"
  by (simp add: scanBatchSpecResolutionJob_def Let_def foldl_logs)

lemma scan_BatchSpecID: "BatchSpecID (snd (scanBatchSpecResolutionJob rj r)) = batch_spec_id r"
  by (simp add: scanBatchSpecResolutionJob_def Let_def foldl_logs)

lemma scan_State: "State (snd (scanBatchSpecResolutionJob rj r)) = state r"
  by (simp add: scanBatchSpecResolutionJob_def Let_def foldl_logs)

lemma scan_WorkerHostname:
  "WorkerHostname (snd (scanBatchSpecResolutionJob rj r)) = worker_hostname r"
  by (simp add: scanBatchSpecResolutionJob_def Let_def foldl_logs)

lemma scan_FailureMessage:
  "FailureMessage (snd (scanBatchSpecResolutionJob rj r)) =
     (case failure_message r of
        None \<Rightarrow> FailureMessage rj
      | Some m \<Rightarrow> if m = [] then FailureMessage rj else Some m)"
  by (simp add: scanBatchSpecResolutionJob_def Let_def foldl_logs NullString_def
           split: option.splits)

lemma scan_zero: "scanBatchSpecResolutionJob zero_job r = (None, job_of_row r)"
  using scan_fst [of zero_job r] by (simp add: job_of_row_def prod_eq_iff)

lemma ID_job_of_row: "ID (job_of_row r) = id_col r"
  by (simp add: job_of_row_def scan_ID)

lemma BatchSpecID_job_of_row: "BatchSpecID (job_of_row r) = batch_spec_id r"
  by (simp add: job_of_row_def scan_BatchSpecID)

lemma State_job_of_row: "State (job_of_row r) = state r"
  by (simp add: job_of_row_def scan_State)

lemma WorkerHostname_job_of_row: "WorkerHostname (job_of_row r) = worker_hostname r"
  by (simp add: job_of_row_def scan_WorkerHostname)

subsection \<open>What the two queries select\<close>

lemma Join_empty_iff: "list_all (\<lambda>p. p \<noteq> []) ps \<Longrightarrow> (Join ps sep = []) = (ps = [])"
  by (induction ps sep rule: Join.induct) simp_all

lemma pred_text_nonempty: "pred_text p \<noteq> []"
  by (cases p) simp_all

lemma where_text_empty_iff: "(Join (map pred_text ps) and_sep = []) = (ps = [])"
  using Join_empty_iff [of "map pred_text ps" and_sep]
  by (simp add: list_all_iff pred_text_nonempty)

lemma get_preds:
  "getBatchSpecResolutionJobQuery opts =
     SELECT BatchSpecResolutionJobColums
       ((if opt_ID opts \<noteq> 0 then [IdEq (opt_ID opts)] else []) @
        (if opt_BatchSpecID opts \<noteq> 0 then [BatchSpecIdEq (opt_BatchSpecID opts)] else []))
       LIMIT_1"
  by (simp add: getBatchSpecResolutionJobQuery_def getBatchSpecResolutionJobsQueryFmtstr_def)

lemma list_preds:
  "listBatchSpecResolutionJobsQuery opts =
     SELECT BatchSpecResolutionJobColums
       (if opt_State opts = [] \<and> opt_WorkerHostname opts = [] then [TRUE]
        else (if opt_State opts \<noteq> [] then [StateEq (opt_State opts)] else []) @
             (if opt_WorkerHostname opts \<noteq> []
              then [WorkerHostnameEq (opt_WorkerHostname opts)] else []))
       ORDER_BY_id_ASC"
  by (simp add: listBatchSpecResolutionJobsQuery_def listBatchSpecResolutionJobsQueryFmtstr_def)

lemma exec_get:
  "exec (getBatchSpecResolutionJobQuery opts) s =
     (case fault s of
        Some m \<Rightarrow> (Inl (StoreFailure m), s)
      | None \<Rightarrow>
          if opt_ID opts = 0 \<and> opt_BatchSpecID opts = 0 then (Inl SyntaxError, s)
          else (Inr (take 1 (filter (get_matches opts) (table s))), s))"
  by (auto simp: get_preds where_text_empty_iff get_matches_def split: option.splits
           intro!: arg_cong [where f = "take (Suc 0)"] filter_cong)

lemma exec_list:
  "exec (listBatchSpecResolutionJobsQuery opts) s =
     (case fault s of
        Some m \<Rightarrow> (Inl (StoreFailure m), s)
      | None \<Rightarrow> (Inr (sort_key id_col (filter (list_matches opts) (table s))), s))"
  by (auto simp: list_preds where_text_empty_iff list_matches_def split: option.splits
           intro!: arg_cong [where f = "sort_key id_col"] filter_cong)

lemma scanAll_list:
  "scanAll rows (\<lambda>sc cs. case scanBatchSpecResolutionJob zero_job sc of
                            (Some e, c) \<Rightarrow> (Some e, cs)
                          | (None, c) \<Rightarrow> (None, append_slice cs c)) (Some xs)
     = (None, Some (xs @ map job_of_row rows))"
  by (induction rows arbitrary: xs) (simp_all add: scan_zero append_slice_def)

text \<open>The list and the get, case by case.\<close>

lemma List_eq:
  "ListBatchSpecResolutionJobs s opts =
     (case fault s of
        Some m \<Rightarrow> ((Some [], Some (StoreFailure m)), s)
      | None \<Rightarrow>
          ((Some (map job_of_row (sort_key id_col (filter (list_matches opts) (table s)))),
            None), s))"
  by (simp add: ListBatchSpecResolutionJobs_def query_def exec_list scanAll_list
           split: option.splits)

lemma Get_eq:
  "GetBatchSpecResolutionJob s opts =
     (case fault s of
        Some m \<Rightarrow> ((None, Some (StoreFailure m)), s)
      | None \<Rightarrow>
          if opt_ID opts = 0 \<and> opt_BatchSpecID opts = 0 then ((None, Some SyntaxError), s)
          else (case filter (get_matches opts) (table s) of
                  [] \<Rightarrow> ((None, Some ErrNoResults), s)
                | r # rs \<Rightarrow> if id_col r = 0 then ((None, Some ErrNoResults), s)
                            else ((Some (job_of_row r), None), s)))"
proof -
  have id0: "ID zero_job = 0" by (simp add: zero_job_def)
  show ?thesis
    unfolding GetBatchSpecResolutionJob_def query_def exec_get Let_def
    by (simp add: scan_zero id0 ID_job_of_row split: option.splits list.splits)
qed

lemma strict_sorted_ids:
  assumes "distinct (map id_col rs)"
  shows "sorted_wrt (<) (map ID (map job_of_row (sort_key id_col (filter P rs))))"
proof -
  have m: "map ID (map job_of_row xs) = map id_col xs" for xs
    by (simp add: ID_job_of_row)
  from assms have "distinct (map id_col (filter P rs))"
    by (rule distinct_map_filter)
  then have "distinct (map id_col (sort_key id_col (filter P rs)))"
    by (simp add: distinct_map)
  moreover have "sorted (map id_col (sort_key id_col (filter P rs)))"
    by (rule sorted_sort_key)
  ultimately show ?thesis
    unfolding m by (simp add: strict_sorted_iff)
qed

subsection \<open>Create, step by step\<close>

lemma length_insert_rows: "length (insert_rows i vs) = length vs"
  by (induction vs arbitrary: i) simp_all

lemma nth_insert_rows:
  "n < length vs \<Longrightarrow> insert_rows i vs ! n = new_row (i + 1 + int n) (vs ! n)"
proof (induction vs arbitrary: i n)
  case Nil
  then show ?case by simp
next
  case (Cons v vs)
  show ?case
  proof (cases n)
    case 0
    then show ?thesis by simp
  next
    case (Suc n')
    with Cons.prems have "n' < length vs" by simp
    from Cons.IH [OF this, of "i + 1"] Suc show ?thesis by (simp add: algebra_simps)
  qed
qed

lemma insert_rows_batch:
  assumes "m \<le> k"
  shows "insert_rows (id_seq s + int m) (map (\<lambda>j. values_of (prepared s ws j)) [m..<k])
           = map (created_row s ws) [m..<k]"
proof (rule nth_equalityI)
  show "length (insert_rows (id_seq s + int m) (map (\<lambda>j. values_of (prepared s ws j)) [m..<k]))
          = length (map (created_row s ws) [m..<k])"
    by (simp add: length_insert_rows)
next
  fix n
  assume "n < length (insert_rows (id_seq s + int m) (map (\<lambda>j. values_of (prepared s ws j)) [m..<k]))"
  then have n: "n < k - m" by (simp add: length_insert_rows)
  then show "insert_rows (id_seq s + int m) (map (\<lambda>j. values_of (prepared s ws j)) [m..<k]) ! n
               = map (created_row s ws) [m..<k] ! n"
    by (simp add: nth_insert_rows created_row_def algebra_simps)
qed

lemma returningScanner_step:
  assumes "cs_i st = int m - 1" and "m < length (cs_ws st)"
  shows "returningScanner r st =
           (None, st\<lparr>cs_i := int m,
                     cs_ws := (cs_ws st)[m := snd (scanBatchSpecResolutionJob (cs_ws st ! m) r)]\<rparr>)"
proof -
  obtain e rj where sc: "scanBatchSpecResolutionJob (cs_ws st ! m) r = (e, rj)"
    by (cases "scanBatchSpecResolutionJob (cs_ws st ! m) r")
  with scan_fst [of "cs_ws st ! m" r] have "e = None" by simp
  with sc assms show ?thesis
    by (simp add: returningScanner_def Let_def)
qed

lemma scanAll_returning:
  assumes "cs_i st = int m - 1" and "m + length rows \<le> length (cs_ws st)"
  shows "scanAll rows returningScanner st =
           (None, st\<lparr>cs_i := int (m + length rows) - 1,
                     cs_ws := map (\<lambda>j. if m \<le> j \<and> j < m + length rows
                                         then snd (scanBatchSpecResolutionJob (cs_ws st ! j) (rows ! (j - m)))
                                         else cs_ws st ! j) [0..<length (cs_ws st)]\<rparr>)"
  using assms
proof (induction rows arbitrary: st m)
  case Nil
  have "map (\<lambda>j. if m \<le> j \<and> j < m + length ([] :: row list)
                then snd (scanBatchSpecResolutionJob (cs_ws st ! j) ([] ! (j - m)))
                else cs_ws st ! j) [0..<length (cs_ws st)] = cs_ws st"
    by (rule nth_equalityI) auto
  with Nil show ?case by simp
next
  case (Cons r rows)
  let ?st1 = "st\<lparr>cs_i := int m,
                  cs_ws := (cs_ws st)[m := snd (scanBatchSpecResolutionJob (cs_ws st ! m) r)]\<rparr>"
  from Cons.prems have m: "m < length (cs_ws st)" by simp
  have step: "returningScanner r st = (None, ?st1)"
    using returningScanner_step [OF Cons.prems(1) m] .
  have i1: "cs_i ?st1 = int (Suc m) - 1" by simp
  have l1: "Suc m + length rows \<le> length (cs_ws ?st1)" using Cons.prems by simp
  have ws_eq:
    "map (\<lambda>j. if Suc m \<le> j \<and> j < Suc m + length rows
               then snd (scanBatchSpecResolutionJob (cs_ws ?st1 ! j) (rows ! (j - Suc m)))
               else cs_ws ?st1 ! j) [0..<length (cs_ws ?st1)]
     = map (\<lambda>j. if m \<le> j \<and> j < m + length (r # rows)
               then snd (scanBatchSpecResolutionJob (cs_ws st ! j) ((r # rows) ! (j - m)))
               else cs_ws st ! j) [0..<length (cs_ws st)]"
    using m by (auto simp: nth_list_update nth_Cons' Suc_diff_le)
  have "scanAll (r # rows) returningScanner st = scanAll rows returningScanner ?st1"
    by (simp add: step)
  then show ?case
    unfolding Cons.IH [OF i1 l1] ws_eq by simp
qed

lemma create_at_simps:
  "cs_i (create_at s ws m k) = int m - 1"
  "cs_batch (create_at s ws m k) = map (\<lambda>j. values_of (prepared s ws j)) [m..<k]"
  "length (cs_ws (create_at s ws m k)) = length ws"
  "table (cs_store (create_at s ws m k)) = table s @ map (created_row s ws) [0..<m]"
  "id_seq (cs_store (create_at s ws m k)) = id_seq s + int m"
  "ticks (cs_store (create_at s ws m k)) = ticks s + zeros ws k"
  "clock (cs_store (create_at s ws m k)) = clock s"
  "fault (cs_store (create_at s ws m k)) = fault s"
  by (simp_all add: create_at_def)

lemma nth_create_at:
  "j < length ws \<Longrightarrow>
   cs_ws (create_at s ws m k) ! j =
     (if j < m then scanned s ws j else if j < k then prepared s ws j else ws ! j)"
  by (simp add: create_at_def)

lemma create_state_eqI:
  assumes "cs_i a = cs_i b" "cs_batch a = cs_batch b" "cs_store a = cs_store b"
    and "length (cs_ws a) = length (cs_ws b)"
    and "\<And>j. j < length (cs_ws b) \<Longrightarrow> cs_ws a ! j = cs_ws b ! j"
  shows "a = (b :: create_state)"
proof -
  from assms(4,5) have "cs_ws a = cs_ws b" by (auto intro: nth_equalityI)
  with assms(1-3) show ?thesis by simp
qed

lemma map_upt_split:
  assumes "m \<le> k"
  shows "map f [0..<m] @ map f [m..<k] = map f [0..<k]"
proof -
  from assms obtain d where "k = m + d" by (auto simp: le_iff_add)
  then show ?thesis using upt_add_eq_append [of 0 m d] by simp
qed

lemma Flush_create_at:
  assumes f: "fault s = None" and mk: "m \<le> k" and kn: "k \<le> length ws"
  shows "Flush (create_at s ws m k) = (None, create_at s ws k k)"
proof (cases "m = k")
  case True
  then show ?thesis by (simp add: Flush_def Let_def create_at_def)
next
  case False
  with mk have lt: "m < k" by simp
  let ?st = "create_at s ws m k"
  let ?s' = "(cs_store ?st)\<lparr>table := table (cs_store ?st) @ map (created_row s ws) [m..<k],
                             id_seq := id_seq (cs_store ?st) + int (k - m)\<rparr>"
  let ?st1 = "?st\<lparr>cs_batch := [], cs_store := ?s'\<rparr>"
  have ex: "exec (INSERT_RETURNING batchSpecResolutionJobInsertColumns (cs_batch ?st)
                    BatchSpecResolutionJobColums) (cs_store ?st)
              = (Inr (map (created_row s ws) [m..<k]), ?s')"
    using f insert_rows_batch [OF mk, of s ws]
    by (simp add: create_at_simps Let_def)
  have "cs_batch ?st \<noteq> []"
    using lt by (simp add: create_at_simps)
  then have "Flush ?st =
      (case exec (INSERT_RETURNING batchSpecResolutionJobInsertColumns (cs_batch ?st)
                    BatchSpecResolutionJobColums) (cs_store ?st) of
         (Inl e, s') \<Rightarrow> (Some e, ?st\<lparr>cs_batch := [], cs_store := s'\<rparr>)
       | (Inr rows, s') \<Rightarrow> scanAll rows returningScanner (?st\<lparr>cs_batch := [], cs_store := s'\<rparr>))"
    by (simp add: Flush_def Let_def del: exec.simps)
  then have fl: "Flush ?st = scanAll (map (created_row s ws) [m..<k]) returningScanner ?st1"
    unfolding ex by simp
  have i: "cs_i ?st1 = int m - 1" by (simp add: create_at_simps)
  have l: "m + length (map (created_row s ws) [m..<k]) \<le> length (cs_ws ?st1)"
    using mk kn by (simp add: create_at_simps)
  let ?st2 = "?st1\<lparr>cs_i := int (m + length (map (created_row s ws) [m..<k])) - 1,
                 cs_ws := map (\<lambda>j. if m \<le> j \<and> j < m + length (map (created_row s ws) [m..<k])
                                     then snd (scanBatchSpecResolutionJob (cs_ws ?st1 ! j)
                                                (map (created_row s ws) [m..<k] ! (j - m)))
                                     else cs_ws ?st1 ! j) [0..<length (cs_ws ?st1)]\<rparr>"
  have sa: "scanAll (map (created_row s ws) [m..<k]) returningScanner ?st1 = (None, ?st2)"
    by (rule scanAll_returning [OF i l])
  have st: "cs_store ?st2 = cs_store (create_at s ws k k)"
    using map_upt_split [OF mk, of "created_row s ws"] mk
    by (simp add: create_at_def)
  have ci: "cs_i ?st2 = cs_i (create_at s ws k k)"
    using mk by (simp add: create_at_simps)
  have cb: "cs_batch ?st2 = cs_batch (create_at s ws k k)"
    by (simp add: create_at_simps)
  have len: "length (cs_ws ?st2) = length (cs_ws (create_at s ws k k))"
    by (simp add: create_at_simps)
  have nth: "cs_ws ?st2 ! j = cs_ws (create_at s ws k k) ! j"
    if "j < length (cs_ws (create_at s ws k k))" for j
  proof -
    from that have j: "j < length ws" by (simp add: create_at_simps)
    then show ?thesis
      using mk kn by (auto simp: create_at_simps nth_create_at scanned_def)
  qed
  have "?st2 = create_at s ws k k"
    using ci cb st len nth by (rule create_state_eqI)
  with sa fl show ?thesis by simp
qed

lemma zeros_Suc:
  "k < length ws \<Longrightarrow>
   zeros ws (Suc k) = zeros ws k + (if IsZero (CreatedAt (ws ! k)) then 1 else 0)"
  by (simp add: zeros_def take_Suc_conv_app_nth)

lemma prepared_fields:
  "BatchSpecID (prepared s ws k) = BatchSpecID (ws ! k)"
  "AllowUnsupported (prepared s ws k) = AllowUnsupported (ws ! k)"
  "AllowIgnored (prepared s ws k) = AllowIgnored (ws ! k)"
  "State (prepared s ws k) = State (ws ! k)"
  "CreatedAt (prepared s ws k) =
     (if IsZero (CreatedAt (ws ! k)) then clock s (ticks s + zeros ws k) else CreatedAt (ws ! k))"
  "UpdatedAt (prepared s ws k) =
     (if IsZero (UpdatedAt (ws ! k)) then CreatedAt (prepared s ws k) else UpdatedAt (ws ! k))"
  by (simp_all add: prepared_def Let_def)

lemma Insert_create_at:
  assumes f: "fault s = None" and mk: "m \<le> k" and kn: "k < length ws"
    and st: "st = (create_at s ws m (Suc k))\<lparr>cs_batch := map (\<lambda>j. values_of (prepared s ws j)) [m..<k]\<rparr>"
  shows "Insert maxBatchSize (values_of (prepared s ws k)) st =
           (None, create_at s ws (if maxBatchSize \<le> Suc k - m then Suc k else m) (Suc k))"
proof -
  have b: "st\<lparr>cs_batch := cs_batch st @ [values_of (prepared s ws k)]\<rparr> = create_at s ws m (Suc k)"
    using mk by (simp add: st create_at_def)
  have len: "length (cs_batch (create_at s ws m (Suc k))) = Suc k - m"
    using mk by (simp add: create_at_simps Suc_diff_le)
  have fl: "Flush (create_at s ws m (Suc k)) = (None, create_at s ws (Suc k) (Suc k))"
    using f mk kn by (intro Flush_create_at) simp_all
  show ?thesis
    unfolding Insert_def Let_def b len fl by simp
qed

lemma inserter_body_create_at:
  assumes f: "fault s = None" and mk: "m \<le> k" and kn: "k < length ws"
  shows "inserter_body maxBatchSize k (create_at s ws m k) =
           (None, create_at s ws (if maxBatchSize \<le> Suc k - m then Suc k else m) (Suc k))"
proof -
  let ?st = "create_at s ws m k"
  let ?wj = "ws ! k"
  have wj: "cs_ws ?st ! k = ?wj"
    using mk kn by (simp add: nth_create_at)
  have nw: "now (cs_store ?st) =
              (clock s (ticks s + zeros ws k), (cs_store ?st)\<lparr>ticks := ticks s + zeros ws k + 1\<rparr>)"
    by (simp add: now_def create_at_simps)
  let ?st1 = "(create_at s ws m (Suc k))\<lparr>cs_batch := map (\<lambda>j. values_of (prepared s ws j)) [m..<k]\<rparr>"
  have body: "inserter_body maxBatchSize k ?st = Insert maxBatchSize (values_of (prepared s ws k)) ?st1"
  proof (cases "IsZero (CreatedAt ?wj)")
    case True
    have s1: "?st\<lparr>cs_ws := (cs_ws ?st)[k := prepared s ws k],
                  cs_store := (cs_store ?st)\<lparr>ticks := ticks s + zeros ws k + 1\<rparr>\<rparr> = ?st1"
    proof (rule create_state_eqI)
      fix j assume "j < length (cs_ws ?st1)"
      then have "j < length ws" by (simp add: create_at_simps)
      then show "cs_ws (?st\<lparr>cs_ws := (cs_ws ?st)[k := prepared s ws k],
                  cs_store := (cs_store ?st)\<lparr>ticks := ticks s + zeros ws k + 1\<rparr>\<rparr>) ! j = cs_ws ?st1 ! j"
        using mk kn by (auto simp: nth_create_at nth_list_update create_at_simps)
    qed (use True kn in \<open>simp_all add: create_at_simps, simp_all add: create_at_def zeros_Suc\<close>)
    have "inserter_body maxBatchSize k ?st =
            Insert maxBatchSize (values_of (prepared s ws k))
              (?st\<lparr>cs_ws := (cs_ws ?st)[k := prepared s ws k],
                    cs_store := (cs_store ?st)\<lparr>ticks := ticks s + zeros ws k + 1\<rparr>\<rparr>)"
      using True by (simp add: inserter_body_def Let_def wj nw values_of_def prepared_def)
    then show ?thesis unfolding s1 .
  next
    case False
    have s1: "?st\<lparr>cs_ws := (cs_ws ?st)[k := prepared s ws k], cs_store := cs_store ?st\<rparr> = ?st1"
    proof (rule create_state_eqI)
      fix j assume "j < length (cs_ws ?st1)"
      then have "j < length ws" by (simp add: create_at_simps)
      then show "cs_ws (?st\<lparr>cs_ws := (cs_ws ?st)[k := prepared s ws k],
                  cs_store := cs_store ?st\<rparr>) ! j = cs_ws ?st1 ! j"
        using mk kn by (auto simp: nth_create_at nth_list_update create_at_simps)
    qed (use False kn in \<open>simp_all add: create_at_simps, simp_all add: create_at_def zeros_Suc\<close>)
    have "inserter_body maxBatchSize k ?st =
            Insert maxBatchSize (values_of (prepared s ws k))
              (?st\<lparr>cs_ws := (cs_ws ?st)[k := prepared s ws k], cs_store := cs_store ?st\<rparr>)"
      using False by (simp add: inserter_body_def Let_def wj values_of_def prepared_def)
    then show ?thesis unfolding s1 .
  qed
  show ?thesis
    unfolding body using f mk kn by (intro Insert_create_at) simp_all
qed

lemma inserter_create_at:
  assumes f: "fault s = None" and n: "n = length ws"
  shows "m \<le> k \<Longrightarrow> k \<le> n \<Longrightarrow>
         \<exists>m'. m' \<le> n \<and> inserter maxBatchSize [k..<n] (create_at s ws m k) = (None, create_at s ws m' n)"
proof (induction "n - k" arbitrary: k m)
  case 0
  then have "k = n" by simp
  with 0 show ?case by auto
next
  case (Suc d)
  then have kn: "k < n" by simp
  let ?m1 = "if maxBatchSize \<le> Suc k - m then Suc k else m"
  have body: "inserter_body maxBatchSize k (create_at s ws m k) = (None, create_at s ws ?m1 (Suc k))"
    using f Suc.prems(1) kn unfolding n by (rule inserter_body_create_at)
  have "d = n - Suc k" using Suc.hyps(2) by simp
  moreover have "?m1 \<le> Suc k" using Suc.prems(1) by simp
  moreover have "Suc k \<le> n" using kn by simp
  ultimately obtain m' where m': "m' \<le> n"
    and rest: "inserter maxBatchSize [Suc k..<n] (create_at s ws ?m1 (Suc k)) = (None, create_at s ws m' n)"
    using Suc.hyps(1) [of "Suc k" ?m1] by blast
  have "inserter maxBatchSize [k..<n] (create_at s ws m k) = (None, create_at s ws m' n)"
    using kn by (simp add: upt_conv_Cons body rest del: upt_Suc)
  with m' show ?case by blast
qed

lemma Create_eq:
  assumes f: "fault s = None"
  shows "CreateBatchSpecResolutionJob maxBatchSize s ws =
           ((None, map (scanned s ws) [0..<length ws]),
            s\<lparr>table := table s @ map (created_row s ws) [0..<length ws],
              id_seq := id_seq s + int (length ws),
              ticks := ticks s + zeros ws (length ws)\<rparr>)"
proof -
  have init: "\<lparr>cs_ws = ws, cs_i = - 1, cs_batch = [], cs_store = s\<rparr> = create_at s ws 0 0"
    by (simp add: create_at_def zeros_def map_nth)
  obtain m' where m': "m' \<le> length ws"
    and loop: "inserter maxBatchSize [0..<length ws] (create_at s ws 0 0)
                 = (None, create_at s ws m' (length ws))"
    using inserter_create_at [OF f refl, where m = 0 and k = 0 and maxBatchSize = maxBatchSize]
    by auto
  have fl: "Flush (create_at s ws m' (length ws)) = (None, create_at s ws (length ws) (length ws))"
    using f m' by (intro Flush_create_at) simp_all
  have fin: "cs_ws (create_at s ws (length ws) (length ws)) = map (scanned s ws) [0..<length ws]"
    by (simp add: create_at_def)
  show ?thesis
    unfolding CreateBatchSpecResolutionJob_def WithInserterWithReturn_def init loop
    by (simp add: fl fin, simp add: create_at_def)
qed

lemma new_row_fields:
  "id_col (new_row i v) = i"
  "batch_spec_id (new_row i v) = v_batch_spec_id v"
  "allow_unsupported (new_row i v) = v_allow_unsupported v"
  "allow_ignored (new_row i v) = v_allow_ignored v"
  "state (new_row i v) = v_state v"
  "created_at (new_row i v) = v_created_at v"
  "updated_at (new_row i v) = v_updated_at v"
  by (simp_all add: new_row_def)

lemma scan_CreatedAt: "CreatedAt (snd (scanBatchSpecResolutionJob rj r)) = created_at r"
  by (simp add: scanBatchSpecResolutionJob_def Let_def foldl_logs)

lemma scan_UpdatedAt: "UpdatedAt (snd (scanBatchSpecResolutionJob rj r)) = updated_at r"
  by (simp add: scanBatchSpecResolutionJob_def Let_def foldl_logs)

lemma prepared_FailureMessage: "FailureMessage (prepared s ws k) = FailureMessage (ws ! k)"
  by (simp add: prepared_def Let_def)

lemma new_row_failure_message: "failure_message (new_row i v) = None"
  by (simp add: new_row_def)


subsection \<open>The primary key is kept\<close>

text \<open>
  A create gives its rows ids from the sequence, and a failing database adds no row: a
  well-formed store stays well-formed, and reads return the store as it was. So the rows
  of every store reached from a well-formed one have distinct ids.
\<close>

lemma created_row_id: "id_col (created_row s ws j) = id_seq s + 1 + int j"
  by (simp add: created_row_def new_row_fields)

lemma Create_wf_answering:
  assumes f: "fault s = None" and wf: "wf_store s"
  shows "wf_store (snd (CreateBatchSpecResolutionJob maxBatchSize s ws))"
proof -
  let ?n = "length ws"
  let ?new = "map (created_row s ws) [0..<?n]"
  from wf have old: "\<forall>r \<in> set (table s). 0 < id_col r \<and> id_col r \<le> id_seq s"
    and dold: "distinct (map id_col (table s))" and seq: "0 \<le> id_seq s"
    by (simp_all add: wf_store_def list_all_iff)
  have ids: "map id_col ?new = map (\<lambda>j. id_seq s + 1 + int j) [0..<?n]"
    by (simp add: created_row_id)
  have d: "distinct (map id_col ?new)"
    unfolding ids by (simp add: distinct_map inj_on_def)
  have disj: "set (map id_col (table s)) \<inter> set (map id_col ?new) = {}"
    unfolding ids using old by fastforce
  have dist: "distinct (map id_col (table s @ ?new))"
    using dold d disj by simp
  have new: "\<forall>r \<in> set ?new. 0 < id_col r \<and> id_col r \<le> id_seq s + int ?n"
    using seq by (auto simp: created_row_id)
  have all: "\<forall>r \<in> set (table s @ ?new). 0 < id_col r \<and> id_col r \<le> id_seq s + int ?n"
    using old new by fastforce
  show ?thesis
    unfolding Create_eq [OF f]
    using dist all seq by (simp add: wf_store_def list_all_iff del: map_append set_append map_map)
qed

lemma Flush_failing:
  assumes "fault (cs_store st) = Some e"
  shows "cs_store (snd (Flush st)) = cs_store st"
  using assms by (simp add: Flush_def Let_def)

lemma Insert_failing:
  assumes "fault (cs_store st) = Some e"
  shows "cs_store (snd (Insert maxBatchSize v st)) = cs_store st"
  using assms by (simp add: Insert_def Let_def Flush_failing)

lemma inserter_body_failing:
  assumes "fault (cs_store st) = Some e"
  shows "table (cs_store (snd (inserter_body maxBatchSize k st))) = table (cs_store st) \<and>
         id_seq (cs_store (snd (inserter_body maxBatchSize k st))) = id_seq (cs_store st) \<and>
         fault (cs_store (snd (inserter_body maxBatchSize k st))) = Some e"
  using assms
  by (simp add: inserter_body_def Let_def now_def Insert_failing split: prod.splits)

lemma inserter_failing:
  assumes "fault (cs_store st) = Some e"
  shows "table (cs_store (snd (inserter maxBatchSize ks st))) = table (cs_store st) \<and>
         id_seq (cs_store (snd (inserter maxBatchSize ks st))) = id_seq (cs_store st) \<and>
         fault (cs_store (snd (inserter maxBatchSize ks st))) = Some e"
  using assms
proof (induction ks arbitrary: st)
  case Nil
  then show ?case by simp
next
  case (Cons k ks)
  obtain err st' where b: "inserter_body maxBatchSize k st = (err, st')"
    by (cases "inserter_body maxBatchSize k st")
  with inserter_body_failing [OF Cons.prems, of maxBatchSize k]
  have st': "table (cs_store st') = table (cs_store st)" "id_seq (cs_store st') = id_seq (cs_store st)"
    "fault (cs_store st') = Some e" by simp_all
  show ?case
  proof (cases err)
    case None
    with b Cons.IH [OF st'(3)] st' show ?thesis by simp
  next
    case (Some x)
    with b st' show ?thesis by simp
  qed
qed

lemma Create_failing:
  assumes "fault s = Some e"
  shows "table (snd (CreateBatchSpecResolutionJob maxBatchSize s ws)) = table s \<and>
         id_seq (snd (CreateBatchSpecResolutionJob maxBatchSize s ws)) = id_seq s"
proof -
  let ?st0 = "\<lparr>cs_ws = ws, cs_i = - 1, cs_batch = [], cs_store = s\<rparr>"
  have f0: "fault (cs_store ?st0) = Some e" using assms by simp
  obtain err st where l: "inserter maxBatchSize [0..<length ws] ?st0 = (err, st)"
    by (cases "inserter maxBatchSize [0..<length ws] ?st0")
  with inserter_failing [OF f0, of maxBatchSize "[0..<length ws]"]
  have st: "table (cs_store st) = table s" "id_seq (cs_store st) = id_seq s"
    "fault (cs_store st) = Some e" by simp_all
  from Flush_failing [OF st(3)] st
  show ?thesis
    by (auto simp: CreateBatchSpecResolutionJob_def WithInserterWithReturn_def l
             split: prod.splits)
qed

lemma Create_wf:
  assumes "wf_store s"
  shows "wf_store (snd (CreateBatchSpecResolutionJob maxBatchSize s ws))"
proof (cases "fault s")
  case None
  then show ?thesis using assms by (rule Create_wf_answering)
next
  case (Some e)
  from Create_failing [OF this, of maxBatchSize ws] assms show ?thesis
    by (simp add: wf_store_def)
qed

lemma wf_store_distinct: "wf_store s \<Longrightarrow> distinct (map id_col (table s))"
  by (simp add: wf_store_def)

subsection \<open>A get that finds nothing\<close>

text \<open>
  Claim C2, as the spec states it: a \<^verbatim>\<open>GetBatchSpecResolutionJob\<close> whose options match no
  stored row reports that as an empty result and not as an error. The code returns the error
  \<^verbatim>\<open>ErrNoResults\<close> next to the nil job: in the store with rows 1 and 2, a get for id 3
  matches no row and its error is not nil.
\<close>

theorem get_not_found_counterexample:
  "filter (get_matches \<lparr>opt_ID = 3, opt_BatchSpecID = 0\<rparr>) (table store2) = [] \<and>
   snd (fst (GetBatchSpecResolutionJob store2 \<lparr>opt_ID = 3, opt_BatchSpecID = 0\<rparr>)) \<noteq> None"
  by (simp add: Get_eq store2_def get_matches_def row1_def row2_def)

text \<open>
  Claim C2, amended: when the database answers, at least one of the two options is set and
  no stored row matches the options, \<^verbatim>\<open>GetBatchSpecResolutionJob\<close> returns a nil job
  together with the sentinel error \<^verbatim>\<open>ErrNoResults\<close>.
\<close>

theorem get_not_found_is_ErrNoResults:
  assumes "fault s = None"
    and "opt_ID opts \<noteq> 0 \<or> opt_BatchSpecID opts \<noteq> 0"
    and "filter (get_matches opts) (table s) = []"
  shows "fst (GetBatchSpecResolutionJob s opts) = (None, Some ErrNoResults)"
  using assms by (auto simp: Get_eq)

theorem get_not_found_is_ErrNoResults_witness:
  "fault store2 = None \<and>
   filter (get_matches \<lparr>opt_ID = 3, opt_BatchSpecID = 0\<rparr>) (table store2) = [] \<and>
   fst (GetBatchSpecResolutionJob store2 \<lparr>opt_ID = 3, opt_BatchSpecID = 0\<rparr>)
     = (None, Some ErrNoResults)"
proof -
  have a: "fault store2 = None" by (simp add: store2_def)
  have b: "opt_ID \<lparr>opt_ID = 3, opt_BatchSpecID = 0\<rparr> \<noteq> 0
             \<or> opt_BatchSpecID \<lparr>opt_ID = 3, opt_BatchSpecID = 0\<rparr> \<noteq> 0" by simp
  have c: "filter (get_matches \<lparr>opt_ID = 3, opt_BatchSpecID = 0\<rparr>) (table store2) = []"
    by (simp add: store2_def get_matches_def row1_def row2_def)
  show ?thesis
    using a c get_not_found_is_ErrNoResults [OF a b c] by simp
qed

subsection \<open>The defaults of a create\<close>

text \<open>
  Claim C3: when the database answers, every job \<open>ws ! k\<close> given to
  \<^verbatim>\<open>CreateBatchSpecResolutionJob\<close> gets a row of its own, appended to the table. The row's
  \<^verbatim>\<open>created_at\<close> is the reading the store's clock gave when the job was reached if the
  job's \<^verbatim>\<open>CreatedAt\<close> was zero, and the job's \<^verbatim>\<open>CreatedAt\<close> otherwise; its
  \<^verbatim>\<open>updated_at\<close> is that \<^verbatim>\<open>created_at\<close> if the job's \<^verbatim>\<open>UpdatedAt\<close> was zero, and the
  job's \<^verbatim>\<open>UpdatedAt\<close> otherwise; its state is \<^verbatim>\<open>queued\<close> if the job's state was empty,
  and the job's state otherwise; the three other inserted values are the job's. The job
  itself holds the row's id, timestamps and state afterwards.
\<close>

theorem create_defaults:
  assumes "fault s = None" and "k < length ws"
  shows "case CreateBatchSpecResolutionJob maxBatchSize s ws of
           ((err, ws'), s') \<Rightarrow>
             err = None \<and> length ws' = length ws \<and>
             length (table s') = length (table s) + length ws \<and>
             take (length (table s)) (table s') = table s \<and>
             (let wj = ws ! k;
                  r = table s' ! (length (table s) + k);
                  t = (if IsZero (CreatedAt wj)
                       then clock s (ticks s + zeros ws k) else CreatedAt wj)
              in created_at r = t \<and>
                 updated_at r = (if IsZero (UpdatedAt wj) then t else UpdatedAt wj) \<and>
                 state r = (if State wj = [] then ''queued'' else State wj) \<and>
                 batch_spec_id r = BatchSpecID wj \<and>
                 allow_unsupported r = AllowUnsupported wj \<and>
                 allow_ignored r = AllowIgnored wj \<and>
                 ID (ws' ! k) = id_col r \<and>
                 CreatedAt (ws' ! k) = created_at r \<and>
                 UpdatedAt (ws' ! k) = updated_at r \<and>
                 State (ws' ! k) = state r)"
  using assms
  by (simp add: Create_eq Let_def nth_append created_row_def new_row_fields values_of_def
                prepared_fields scanned_def scan_ID scan_CreatedAt scan_UpdatedAt scan_State
                BatchSpecResolutionJobStateQueued_def)


theorem create_defaults_witness:
  "fault store2 = None \<and>
   created_at (table (snd (CreateBatchSpecResolutionJob 2 store2 [job_a, job_b, job_c])) ! 2) = 200 \<and>
   updated_at (table (snd (CreateBatchSpecResolutionJob 2 store2 [job_a, job_b, job_c])) ! 2) = 200 \<and>
   state (table (snd (CreateBatchSpecResolutionJob 2 store2 [job_a, job_b, job_c])) ! 2) = ''queued'' \<and>
   created_at (table (snd (CreateBatchSpecResolutionJob 2 store2 [job_a, job_b, job_c])) ! 3) = 50 \<and>
   updated_at (table (snd (CreateBatchSpecResolutionJob 2 store2 [job_a, job_b, job_c])) ! 3) = 50 \<and>
   state (table (snd (CreateBatchSpecResolutionJob 2 store2 [job_a, job_b, job_c])) ! 3) = ''completed'' \<and>
   created_at (table (snd (CreateBatchSpecResolutionJob 2 store2 [job_a, job_b, job_c])) ! 4) = 201 \<and>
   updated_at (table (snd (CreateBatchSpecResolutionJob 2 store2 [job_a, job_b, job_c])) ! 4) = 60 \<and>
   state (table (snd (CreateBatchSpecResolutionJob 2 store2 [job_a, job_b, job_c])) ! 4) = ''queued''"
proof -
  let ?ws = "[job_a, job_b, job_c]"
  have f: "fault store2 = None" by (simp add: store2_def)
  have k0: "0 < length ?ws" and k1: "1 < length ?ws" and k2: "2 < length ?ws" by simp_all
  have st: "clock store2 = (\<lambda>n. 200 + int n)" "ticks store2 = 0" "length (table store2) = 2"
    by (simp_all add: store2_def)
  have a: "CreatedAt job_a = 0" "UpdatedAt job_a = 0" "State job_a = []"
    by (simp_all add: job_a_def zero_job_def zero_time_def)
  have b: "CreatedAt job_b = 50" "UpdatedAt job_b = 0" "State job_b = ''completed''"
    by (simp_all add: job_b_def zero_job_def zero_time_def)
  have c: "CreatedAt job_c = 0" "UpdatedAt job_c = 60" "State job_c = []"
    by (simp_all add: job_c_def zero_job_def zero_time_def)
  have z: "zeros ?ws 0 = 0" "zeros ?ws 1 = 1" "zeros ?ws 2 = 1"
    by (simp_all add: zeros_def a b c IsZero_def take_Suc_Cons numeral_2_eq_2)
  show ?thesis
    using f create_defaults [OF f k0, of 2] create_defaults [OF f k1, of 2]
          create_defaults [OF f k2, of 2]
    by (simp add: case_prod_unfold Let_def st a b c z IsZero_def)
qed

subsection \<open>The order of a listing\<close>

text \<open>
  Claim C4: in every store whose rows have distinct ids (the table's primary key), and for
  every options value, the jobs \<^verbatim>\<open>ListBatchSpecResolutionJobs\<close> returns are in strictly
  ascending order of id.
\<close>

theorem list_ascending_ids:
  assumes "distinct (map id_col (table s))"
  shows "sorted_wrt (<) (map ID (elems (fst (fst (ListBatchSpecResolutionJobs s opts)))))"
  using strict_sorted_ids [OF assms]
  by (simp add: List_eq elems_def split: option.splits)

theorem list_ascending_ids_witness:
  "distinct (map id_col (table store2)) \<and>
   map ID (elems (fst (fst (ListBatchSpecResolutionJobs store2
                              \<lparr>opt_State = [], opt_WorkerHostname = []\<rparr>)))) = [1, 2] \<and>
   sorted_wrt (<) (map ID (elems (fst (fst (ListBatchSpecResolutionJobs store2
                                              \<lparr>opt_State = [], opt_WorkerHostname = []\<rparr>)))))"
proof -
  have a: "distinct (map id_col (table store2))"
    by (simp add: store2_def row1_def row2_def)
  have b: "map ID (elems (fst (fst (ListBatchSpecResolutionJobs store2
                              \<lparr>opt_State = [], opt_WorkerHostname = []\<rparr>)))) = [1, 2]"
    by (simp add: store2_def row1_def row2_def List_eq elems_def list_matches_def ID_job_of_row)
  show ?thesis
    using a b list_ascending_ids [OF a, of "\<lparr>opt_State = [], opt_WorkerHostname = []\<rparr>"]
    by simp
qed

subsection \<open>The filter of a listing\<close>

text \<open>
  Claim C5: every job \<^verbatim>\<open>ListBatchSpecResolutionJobs\<close> returns has the state of the options
  when that is not empty and the worker hostname of the options when that is not empty; and
  when both are empty (and the database answers) the listing holds every stored row, scanned,
  in order of id.
\<close>

theorem list_filters:
  "(\<forall>j \<in> set (elems (fst (fst (ListBatchSpecResolutionJobs s opts)))).
      (opt_State opts \<noteq> [] \<longrightarrow> State j = opt_State opts) \<and>
      (opt_WorkerHostname opts \<noteq> [] \<longrightarrow> WorkerHostname j = opt_WorkerHostname opts)) \<and>
   (fault s = None \<and> opt_State opts = [] \<and> opt_WorkerHostname opts = [] \<longrightarrow>
      fst (ListBatchSpecResolutionJobs s opts)
        = (Some (map job_of_row (sort_key id_col (table s))), None))"
proof -
  have all: "filter (list_matches opts) (table s) = table s"
    if "opt_State opts = []" "opt_WorkerHostname opts = []"
    using that by (simp add: list_matches_def)
  show ?thesis
    by (auto simp: List_eq elems_def all State_job_of_row WorkerHostname_job_of_row
                   list_matches_def split: option.splits)
qed

theorem list_filters_witness:
  "fst (ListBatchSpecResolutionJobs store2 \<lparr>opt_State = [], opt_WorkerHostname = []\<rparr>)
     = (Some [job_of_row row1, job_of_row row2], None) \<and>
   elems (fst (fst (ListBatchSpecResolutionJobs store2
                      \<lparr>opt_State = ''failed'', opt_WorkerHostname = ''worker-1''\<rparr>)))
     = [job_of_row row2] \<and>
   State (job_of_row row2) = ''failed'' \<and> WorkerHostname (job_of_row row2) = ''worker-1''"
proof -
  have a: "fault store2 = None" by (simp add: store2_def)
  have b: "sort_key id_col (table store2) = [row1, row2]"
    by (simp add: store2_def row1_def row2_def)
  have c: "elems (fst (fst (ListBatchSpecResolutionJobs store2
                      \<lparr>opt_State = ''failed'', opt_WorkerHostname = ''worker-1''\<rparr>)))
             = [job_of_row row2]"
    by (simp add: List_eq elems_def store2_def list_matches_def row1_def row2_def)
  show ?thesis
    using list_filters [of store2 "\<lparr>opt_State = [], opt_WorkerHostname = []\<rparr>"]
          list_filters [of store2 "\<lparr>opt_State = ''failed'', opt_WorkerHostname = ''worker-1''\<rparr>"]
          a b c
    by simp
qed

subsection \<open>A get that succeeds\<close>

text \<open>
  Claim C6: when \<^verbatim>\<open>GetBatchSpecResolutionJob\<close> returns a nil error, its query returned
  exactly one row, a row of the table; the job returned is that row, scanned; its id is the
  id of the options when that is not 0, and its batch spec id is the batch spec id of the
  options when that is not 0.
\<close>

theorem get_success:
  assumes "snd (fst (GetBatchSpecResolutionJob s opts)) = None"
  shows "\<exists>r. fst (exec (getBatchSpecResolutionJobQuery opts) s) = Inr [r] \<and>
             r \<in> set (table s) \<and>
             fst (fst (GetBatchSpecResolutionJob s opts)) = Some (job_of_row r) \<and>
             (opt_ID opts \<noteq> 0 \<longrightarrow> ID (job_of_row r) = opt_ID opts) \<and>
             (opt_BatchSpecID opts \<noteq> 0 \<longrightarrow> BatchSpecID (job_of_row r) = opt_BatchSpecID opts)"
proof -
  from assms have f: "fault s = None" and nz: "\<not> (opt_ID opts = 0 \<and> opt_BatchSpecID opts = 0)"
    by (auto simp: Get_eq split: option.splits if_splits)
  from assms f nz obtain r rs where
    m: "filter (get_matches opts) (table s) = r # rs" and id: "id_col r \<noteq> 0"
    by (auto simp: Get_eq split: list.splits if_splits)
  from m have "r \<in> set (filter (get_matches opts) (table s))" by simp
  then have mem: "r \<in> set (table s)" and gm: "get_matches opts r" by simp_all
  have "fst (exec (getBatchSpecResolutionJobQuery opts) s) = Inr [r]"
    using f nz m by (auto simp: exec_get)
  moreover have "fst (fst (GetBatchSpecResolutionJob s opts)) = Some (job_of_row r)"
    using f nz m id by (auto simp: Get_eq)
  moreover have "opt_ID opts \<noteq> 0 \<longrightarrow> ID (job_of_row r) = opt_ID opts"
    using gm by (auto simp: get_matches_def ID_job_of_row)
  moreover have "opt_BatchSpecID opts \<noteq> 0 \<longrightarrow> BatchSpecID (job_of_row r) = opt_BatchSpecID opts"
    using gm by (auto simp: get_matches_def BatchSpecID_job_of_row)
  ultimately show ?thesis using mem by blast
qed

theorem get_success_witness:
  "snd (fst (GetBatchSpecResolutionJob store2 \<lparr>opt_ID = 2, opt_BatchSpecID = 9\<rparr>)) = None \<and>
   (\<exists>r. fst (exec (getBatchSpecResolutionJobQuery \<lparr>opt_ID = 2, opt_BatchSpecID = 9\<rparr>) store2)
           = Inr [r] \<and>
        r \<in> set (table store2) \<and>
        fst (fst (GetBatchSpecResolutionJob store2 \<lparr>opt_ID = 2, opt_BatchSpecID = 9\<rparr>))
          = Some (job_of_row r) \<and>
        ID (job_of_row r) = 2 \<and> BatchSpecID (job_of_row r) = 9)"
proof -
  have h: "snd (fst (GetBatchSpecResolutionJob store2 \<lparr>opt_ID = 2, opt_BatchSpecID = 9\<rparr>)) = None"
    by (simp add: Get_eq store2_def get_matches_def row1_def row2_def)
  show ?thesis
    using h get_success [OF h] by simp
qed

subsection \<open>Reads change nothing\<close>

text \<open>
  Claim C7: for every store and all options, \<^verbatim>\<open>GetBatchSpecResolutionJob\<close> and
  \<^verbatim>\<open>ListBatchSpecResolutionJobs\<close> return the store they were given; in particular every
  row of the table is as it was.
\<close>

theorem reads_leave_store:
  "snd (GetBatchSpecResolutionJob s gopts) = s \<and>
   table (snd (GetBatchSpecResolutionJob s gopts)) = table s \<and>
   snd (ListBatchSpecResolutionJobs s lopts) = s \<and>
   table (snd (ListBatchSpecResolutionJobs s lopts)) = table s"
  by (simp add: Get_eq List_eq split: option.splits list.splits)

subsection \<open>The failure message of a scanned job\<close>

text \<open>
  Claim C8, as stated: after any scan, the job's \<^verbatim>\<open>FailureMessage\<close> is nil exactly when
  the column is NULL or empty. The scan assigns the pointer only for a non-empty message and
  never resets it: scanned into a job that already has a failure message, a row whose
  column is NULL leaves that message in place. \<^verbatim>\<open>CreateBatchSpecResolutionJob\<close> scans
  into its callers' jobs, so such a job reaches the scan: created with a failure message,
  \<open>job_c\<close> still has it afterwards, while the column of its new row is NULL.
\<close>

theorem scan_failure_message_counterexample:
  "failure_message row1 = None \<and>
   FailureMessage (snd (scanBatchSpecResolutionJob (zero_job\<lparr>FailureMessage := Some ''stale''\<rparr>) row1))
     = Some ''stale'' \<and>
   failure_message (table (snd (CreateBatchSpecResolutionJob 2 store2 [job_a, job_b, job_c])) ! 4)
     = None \<and>
   FailureMessage (snd (fst (CreateBatchSpecResolutionJob 2 store2 [job_a, job_b, job_c])) ! 2)
     = Some ''stale''"
proof -
  have f: "fault store2 = None" by (simp add: store2_def)
  have l: "length (table store2) = 2" by (simp add: store2_def)
  have c: "FailureMessage job_c = Some ''stale''" by (simp add: job_c_def)
  show ?thesis
    by (simp add: scan_FailureMessage row1_def Create_eq [OF f] l nth_append created_row_def
                  new_row_failure_message scanned_def prepared_FailureMessage c)
qed

text \<open>
  Claim C8, amended: for every row scanned into a job whose \<^verbatim>\<open>FailureMessage\<close> is nil
  beforehand (as the jobs of get, list and \<^verbatim>\<open>scanBatchSpecResolutionJobs\<close> are), the
  resulting \<^verbatim>\<open>FailureMessage\<close> is nil exactly when the column is NULL or the empty
  string, and otherwise is the stored string; and a NULL and an empty string give the same
  job.
\<close>

theorem scan_failure_message:
  assumes "FailureMessage rj = None"
  shows "(FailureMessage (snd (scanBatchSpecResolutionJob rj r)) = None
            \<longleftrightarrow> failure_message r = None \<or> failure_message r = Some []) \<and>
         (failure_message r \<noteq> None \<and> failure_message r \<noteq> Some []
            \<longrightarrow> FailureMessage (snd (scanBatchSpecResolutionJob rj r)) = failure_message r) \<and>
         scanBatchSpecResolutionJob rj (r\<lparr>failure_message := None\<rparr>)
           = scanBatchSpecResolutionJob rj (r\<lparr>failure_message := Some []\<rparr>)"
proof -
  have "scanBatchSpecResolutionJob rj (r\<lparr>failure_message := None\<rparr>)
          = scanBatchSpecResolutionJob rj (r\<lparr>failure_message := Some []\<rparr>)"
    by (simp add: scanBatchSpecResolutionJob_def NullString_def)
  then show ?thesis
    using assms by (auto simp: scan_FailureMessage split: option.splits)
qed

theorem scan_failure_message_witness:
  "FailureMessage zero_job = None \<and>
   FailureMessage (snd (scanBatchSpecResolutionJob zero_job row1)) = None \<and>
   FailureMessage (snd (scanBatchSpecResolutionJob zero_job row2)) = Some ''boom''"
proof -
  have h: "FailureMessage zero_job = None" by (simp add: zero_job_def)
  have f1: "failure_message row1 = None" by (simp add: row1_def)
  have f2: "failure_message row2 = Some ''boom''" by (simp add: row2_def)
  show ?thesis
    using h scan_failure_message [OF h, of row1] scan_failure_message [OF h, of row2]
    by (simp add: f1 f2)
qed

subsection \<open>A get without options\<close>

text \<open>
  Claim C9: with both options 0, \<^verbatim>\<open>getBatchSpecResolutionJobQuery\<close> joins no predicate,
  so the WHERE clause of its query is empty text, whereas the list query without options
  has the clause \<^verbatim>\<open>TRUE\<close>; and in every store such a get returns a nil job and an
  error (the database's failure if it is failing, else its refusal of the statement).
\<close>

theorem get_without_options_never_succeeds:
  "where_preds (getBatchSpecResolutionJobQuery \<lparr>opt_ID = 0, opt_BatchSpecID = 0\<rparr>) = [] \<and>
   where_clause (getBatchSpecResolutionJobQuery \<lparr>opt_ID = 0, opt_BatchSpecID = 0\<rparr>) = [] \<and>
   where_clause (listBatchSpecResolutionJobsQuery \<lparr>opt_State = [], opt_WorkerHostname = []\<rparr>)
     = ''TRUE'' \<and>
   fst (fst (GetBatchSpecResolutionJob s \<lparr>opt_ID = 0, opt_BatchSpecID = 0\<rparr>)) = None \<and>
   snd (fst (GetBatchSpecResolutionJob s \<lparr>opt_ID = 0, opt_BatchSpecID = 0\<rparr>))
     = Some (case fault s of None \<Rightarrow> SyntaxError | Some m \<Rightarrow> StoreFailure m)"
  by (simp add: Get_eq get_preds list_preds where_clause_def split: option.splits)

subsection \<open>Empty results\<close>

text \<open>
  Claim C10: when the database answers and no stored row matches the options,
  \<^verbatim>\<open>ListBatchSpecResolutionJobs\<close> returns an empty slice that is not nil, with a nil
  error; and \<^verbatim>\<open>ScanFirstBatchSpecResolutionJob\<close> on an empty row set (and a nil query
  error) returns a nil job, false and a nil error.
\<close>

theorem empty_results:
  assumes "fault s = None" and "filter (list_matches opts) (table s) = []"
  shows "fst (ListBatchSpecResolutionJobs s opts) = (Some [], None) \<and>
         ScanFirstBatchSpecResolutionJob [] None = (None, False, None)"
  using assms
  by (simp add: List_eq ScanFirstBatchSpecResolutionJob_def scanBatchSpecResolutionJobs_def
                len_def)

theorem empty_results_witness:
  "fault store2 = None \<and>
   filter (list_matches \<lparr>opt_State = ''processing'', opt_WorkerHostname = []\<rparr>) (table store2)
     = [] \<and>
   fst (ListBatchSpecResolutionJobs store2 \<lparr>opt_State = ''processing'', opt_WorkerHostname = []\<rparr>)
     = (Some [], None) \<and>
   ScanFirstBatchSpecResolutionJob [] None = (None, False, None)"
proof -
  have a: "fault store2 = None" by (simp add: store2_def)
  have b: "filter (list_matches \<lparr>opt_State = ''processing'', opt_WorkerHostname = []\<rparr>)
             (table store2) = []"
    by (simp add: store2_def list_matches_def row1_def row2_def)
  show ?thesis using a b empty_results [OF a b] by simp
qed

end
